theory Spec2Isabelle
  imports Complex_Main
begin

section \<open>Stochastic simulation of receptor dynamics: the embedding\<close>

text \<open>
  The development follows \<^verbatim>\<open>initialiseReceptors.py\<close>. Python integers are
  \<^typ>\<open>int\<close>, species counts are integers (the state array is created from integer
  literals and only integer stoichiometry rows are added to it), rate constants, random
  draws and times are exact reals. Every exception the source can raise is a value of
  \<open>py_error\<close> on the left of a sum.
\<close>

datatype py_error = IndexError | ValueError | ZeroDivisionError

subsection \<open>Python list indexing\<close>

text \<open>
  \<^verbatim>\<open>xs[i]\<close> for a sequence of length \<open>len\<close>: the position that index \<open>i\<close> denotes,
  counted from the end when \<open>i\<close> is negative, or nothing when Python raises.
\<close>

definition py_index :: "nat \<Rightarrow> int \<Rightarrow> nat option" where
  "py_index len i =
     (if 0 \<le> i \<and> i < int len then Some (nat i)
      else if i < 0 \<and> - int len \<le> i then Some (nat (int len + i))
      else None)"

definition py_get :: "'a list \<Rightarrow> int \<Rightarrow> py_error + 'a" where
  "py_get xs i = (case py_index (length xs) i of None \<Rightarrow> Inl IndexError | Some k \<Rightarrow> Inr (xs ! k))"

definition py_set :: "'a list \<Rightarrow> int \<Rightarrow> 'a \<Rightarrow> py_error + 'a list" where
  "py_set xs i v =
     (case py_index (length xs) i of None \<Rightarrow> Inl IndexError | Some k \<Rightarrow> Inr (xs[k := v]))"

subsection \<open>\<^verbatim>\<open>calculate_hi\<close>\<close>

text \<open>
  The inner \<^verbatim>\<open>while j>0: b[j]+=b[j-1]; j-=1\<close>, started at \<open>j\<close>.
\<close>

fun pascal_inner :: "nat \<Rightarrow> int list \<Rightarrow> int list" where
  "pascal_inner 0 b = b"
| "pascal_inner (Suc k) b = pascal_inner k (b[Suc k := b ! Suc k + b ! k])"

text \<open>One pass of \<^verbatim>\<open>for i in range(1,n+1)\<close>: \<^verbatim>\<open>b[i]=1; j=i-1\<close>, then the inner loop.\<close>

definition pascal_step :: "int list \<Rightarrow> nat \<Rightarrow> int list" where
  "pascal_step b i = pascal_inner (i - 1) (b[i := 1])"

definition pascal_row :: "nat \<Rightarrow> int list" where
  \<comment> \<open>\<^verbatim>\<open>b=[0]*(n+1); b[0]=1\<close> followed by the outer loop.\<close>
  "pascal_row n = foldl pascal_step ((replicate (n + 1) 0)[0 := 1]) [1..<n + 1]"

definition factorial :: "int \<Rightarrow> int" where
  \<comment> \<open>\<^verbatim>\<open>scipy.special.factorial\<close>: zero on negative arguments.\<close>
  "factorial m = (if m < 0 then 0 else int (fact (nat m)))"

definition calculate_hi :: "int \<Rightarrow> int \<Rightarrow> py_error + int" where
  \<comment> \<open>\<^verbatim>\<open>[0]*(n+1)\<close> is empty for \<open>n < 0\<close>, so \<^verbatim>\<open>b[0]=1\<close> raises there;
      \<^verbatim>\<open>b[m]\<close> raises when \<open>m\<close> is past the end of the row.\<close>
  "calculate_hi n m =
     (if n < 0 then Inl IndexError
      else case py_get (pascal_row (nat n)) m of
             Inl e \<Rightarrow> Inl e
           | Inr c \<Rightarrow> Inr (c * factorial m))"

subsection \<open>Propensities (step 1 of \<^verbatim>\<open>gillespie_algo\<close>)\<close>

text \<open>
  The loop \<^verbatim>\<open>for j in range(number_species)\<close> for one reaction: \<open>row\<close> is
  \<^verbatim>\<open>sub_stoch[i,:]\<close>, \<open>cs\<close> is \<^verbatim>\<open>current_species\<close>, \<open>hi\<close> the accumulator.
  Reading \<^verbatim>\<open>current_species[j]\<close> past the end of the state raises.
\<close>

fun hi_loop :: "int list \<Rightarrow> int list \<Rightarrow> nat list \<Rightarrow> int \<Rightarrow> py_error + int" where
  "hi_loop row cs [] hi = Inr hi"
| "hi_loop row cs (j # js) hi =
     (if row ! j = 0 then hi_loop row cs js hi
      else if length cs \<le> j then Inl IndexError
      else if cs ! j \<le> 0 then hi_loop row cs js 0
      else case calculate_hi (cs ! j) \<bar>row ! j\<bar> of
             Inl e \<Rightarrow> Inl e
           | Inr h \<Rightarrow> hi_loop row cs js (hi * h))"

definition reaction_hi :: "int list \<Rightarrow> int list \<Rightarrow> py_error + int" where
  "reaction_hi row cs = hi_loop row cs [0..<length row] 1"

text \<open>
  \<^verbatim>\<open>a[i] = hi*rates[i]\<close> for every reaction, in order; \<^verbatim>\<open>rates[i]\<close> raises when
  the rate vector is too short.
\<close>

fun propensities :: "int list list \<Rightarrow> real list \<Rightarrow> int list \<Rightarrow> nat \<Rightarrow> py_error + real list" where
  "propensities [] rates cs i = Inr []"
| "propensities (row # rows) rates cs i =
     (case reaction_hi row cs of
        Inl e \<Rightarrow> Inl e
      | Inr hi \<Rightarrow>
          if length rates \<le> i then Inl IndexError
          else (case propensities rows rates cs (Suc i) of
                  Inl e \<Rightarrow> Inl e
                | Inr a \<Rightarrow> Inr (of_int hi * rates ! i # a)))"

subsection \<open>Floating-point values\<close>

text \<open>
  Times are \<^verbatim>\<open>float64\<close> values. Rounding is not modelled: a finite value is an exact
  real. The special values are kept, because numpy's division by zero does not raise but
  yields an infinity (or a NaN for \<open>0/0\<close>) and the simulation then carries on with it.
  A real zero stands for \<open>+0.0\<close>.
\<close>

datatype npfloat = Fin real | PInf | NInf | NaN


fun fadd :: "npfloat \<Rightarrow> npfloat \<Rightarrow> npfloat" where
  "fadd (Fin a) (Fin b) = Fin (a + b)"
| "fadd NaN y = NaN"
| "fadd x NaN = NaN"
| "fadd PInf NInf = NaN"
| "fadd NInf PInf = NaN"
| "fadd PInf y = PInf"
| "fadd x PInf = PInf"
| "fadd NInf y = NInf"
| "fadd x NInf = NInf"


fun fsign :: "npfloat \<Rightarrow> int" where
  "fsign (Fin a) = (if a = 0 then 0 else if 0 < a then 1 else - 1)"
| "fsign PInf = 1"
| "fsign NInf = - 1"
| "fsign NaN = 0"

definition signed_inf :: "int \<Rightarrow> npfloat" where
  "signed_inf s = (if s = 0 then NaN else if 0 < s then PInf else NInf)"

fun fmul :: "npfloat \<Rightarrow> npfloat \<Rightarrow> npfloat" where
  "fmul (Fin a) (Fin b) = Fin (a * b)"
| "fmul NaN y = NaN"
| "fmul x NaN = NaN"
| "fmul x y = signed_inf (fsign x * fsign y)"

fun fdiv :: "npfloat \<Rightarrow> npfloat \<Rightarrow> npfloat" where
  "fdiv (Fin a) (Fin b) = (if b = 0 then signed_inf (fsign (Fin a)) else Fin (a / b))"
| "fdiv NaN y = NaN"
| "fdiv x NaN = NaN"
| "fdiv (Fin a) y = Fin 0"
| "fdiv x (Fin b) = signed_inf (fsign x * (if b < 0 then - 1 else 1))"
| "fdiv x y = NaN"

fun flog :: "npfloat \<Rightarrow> npfloat" where
  "flog (Fin a) = (if a = 0 then NInf else if a < 0 then NaN else Fin (ln a))"
| "flog PInf = PInf"
| "flog x = NaN"


fun flt :: "npfloat \<Rightarrow> npfloat \<Rightarrow> bool" where
  "flt (Fin a) (Fin b) = (a < b)"
| "flt NaN y = False"
| "flt x NaN = False"
| "flt x NInf = False"
| "flt PInf y = False"
| "flt x y = True"

subsection \<open>\<^verbatim>\<open>next_values\<close>\<close>

text \<open>
  The scan \<^verbatim>\<open>while N > 0: mu += 1; N = N - a[mu]\<close>. Nothing in the source bounds
  \<open>mu\<close>; reading \<^verbatim>\<open>a[mu]\<close> past the end raises.
\<close>

function scan :: "real list \<Rightarrow> nat \<Rightarrow> real \<Rightarrow> py_error + nat" where
  "scan a mu N =
     (if 0 < N then
        (if Suc mu < length a then scan a (Suc mu) (N - a ! Suc mu) else Inl IndexError)
      else Inr mu)"
  by pat_completeness auto
termination
  by (relation "measure (\<lambda>(a, mu, N). length a - mu)") auto

declare scan.simps [simp del]

definition next_values :: "real \<Rightarrow> real list \<Rightarrow> real \<Rightarrow> real \<Rightarrow> py_error + (npfloat \<times> nat)" where
  \<comment> \<open>The caller passes \<^verbatim>\<open>a0 = sum(a)\<close>: a numpy value when \<open>a\<close> has rows, so that
      \<^verbatim>\<open>1/a0\<close> is an infinity at zero, but the Python integer 0 when \<open>a\<close> is empty, and
      then \<^verbatim>\<open>1/a0\<close> raises.\<close>
  "next_values a0 a r1 r2 =
     (if a = [] \<and> a0 = 0 then Inl ZeroDivisionError
      else
        let new_time_difference = fmul (fdiv (Fin 1) (Fin a0)) (flog (fdiv (Fin 1) (Fin r1)))
        in case py_get a 0 of
             Inl e \<Rightarrow> Inl e
           | Inr a_0 \<Rightarrow>
               (case scan a 0 (r2 * a0 - a_0) of
                  Inl e \<Rightarrow> Inl e
                | Inr mu \<Rightarrow> Inr (new_time_difference, mu)))"

subsection \<open>\<^verbatim>\<open>gillespie_algo\<close>: the event loop\<close>

text \<open>
  A stoichiometry matrix is the list of its rows. numpy arrays are rectangular; the shape
  of a list that is not is undefined, and such a list is refused like a shape mismatch.
  \<^verbatim>\<open>stoch = sub_stoch + prod_stoch\<close> is modelled for operands of one shape (numpy would
  also stretch an axis of size 1; the parser returns two matrices of one shape). A matrix
  without rows has no columns here. Since the two matrices have the shape of
  \<^verbatim>\<open>stoch\<close>, the loops over \<^verbatim>\<open>range(number_reactions)\<close> and
  \<^verbatim>\<open>range(number_species)\<close> are the loops over the rows and columns of
  \<^verbatim>\<open>sub_stoch\<close>.
\<close>

definition shape :: "'a list list \<Rightarrow> (nat \<times> nat) option" where
  "shape m =
     (case m of
        [] \<Rightarrow> Some (0, 0)
      | r # rs \<Rightarrow> if \<forall>x \<in> set rs. length x = length r then Some (length m, length r) else None)"

definition mat_add :: "int list list \<Rightarrow> int list list \<Rightarrow> py_error + int list list" where
  "mat_add A B =
     (if shape A \<noteq> None \<and> shape A = shape B then Inr (map2 (map2 (+)) A B)
      else Inl ValueError)"

text \<open>
  \<^verbatim>\<open>store_number_molecules[n_counter,:] = current_species\<close> writes a row of width
  \<open>S\<close>; a state of length 1 is stretched, any other length raises.
\<close>

definition assign_row :: "nat \<Rightarrow> int list \<Rightarrow> py_error + int list" where
  "assign_row S cs =
     (if length cs = S then Inr cs
      else if length cs = 1 then Inr (replicate S (hd cs))
      else Inl ValueError)"

text \<open>
  \<^verbatim>\<open>current_species += np.transpose(stoch[next_r,:])\<close>: in place, so the result keeps
  the length of the state; a row of length 1 is stretched, any other length raises.
\<close>

definition add_row :: "int list \<Rightarrow> int list \<Rightarrow> py_error + int list" where
  "add_row cs row =
     (if length row = length cs then Inr (map2 (+) cs row)
      else if length row = 1 then Inr (map (\<lambda>x. x + hd row) cs)
      else Inl ValueError)"

text \<open>The variables the loop updates.\<close>

record sim =
  current_time :: npfloat
  current_species :: "int list"
  n_counter :: nat
  store_time :: "npfloat list"
  store_number_molecules :: "int list list"
  store_time_difference :: "npfloat list list"

text \<open>
  What the loop reads and never changes. The two arrays of uniform draws that the source
  takes from \<^verbatim>\<open>np.random.random_sample(n_max)\<close> are inputs of the model, indexed by
  the step.
\<close>

record run_params =
  p_rates :: "real list"
  p_sub_stoch :: "int list list"
  p_stoch :: "int list list"
  p_number_species :: nat
  p_number_synapses :: nat
  p_tmax :: real
  p_n_max :: nat
  p_r1 :: "nat \<Rightarrow> real"
  p_r2 :: "nat \<Rightarrow> real"

text \<open>
  One pass through the body of the \<^verbatim>\<open>while\<close> loop (steps 1 to 3). The sampler
  returns an index below the number of reactions, so \<^verbatim>\<open>stoch[next_r,:]\<close> is in
  range. The stores receive copies of the values; that \<^verbatim>\<open>current_species\<close> is the
  caller's array \<^verbatim>\<open>init\<close>, changed in place, does not show in the result.
\<close>

definition gillespie_step :: "run_params \<Rightarrow> sim \<Rightarrow> py_error + sim" where
  "gillespie_step P st =
     (case propensities (p_sub_stoch P) (p_rates P) (current_species st) 0 of
        Inl e \<Rightarrow> Inl e
      | Inr a \<Rightarrow>
     (case next_values (sum_list a) a (p_r1 P (n_counter st)) (p_r2 P (n_counter st)) of
        Inl e \<Rightarrow> Inl e
      | Inr (new_time_difference, next_r) \<Rightarrow>
     (case add_row (current_species st) (p_stoch P ! next_r) of
        Inl e \<Rightarrow> Inl e
      | Inr cs \<Rightarrow>
     (case assign_row (p_number_species P) cs of
        Inl e \<Rightarrow> Inl e
      | Inr row \<Rightarrow>
          let t = fadd (current_time st) new_time_difference;
              n = Suc (n_counter st)
          in Inr \<lparr> current_time = t,
                   current_species = cs,
                   n_counter = n,
                   store_time = (store_time st)[n := t],
                   store_number_molecules = (store_number_molecules st)[n := row],
                   store_time_difference =
                     (store_time_difference st)
                       [n_counter st :=
                          map (\<lambda>z. fadd z new_time_difference)
                            (replicate (p_number_synapses P) (Fin 0))] \<rparr>))))"

text \<open>
  \<^verbatim>\<open>while (current_time < tmax) and (n_counter < n_max-1)\<close>. An exception in the body
  ends the run.
\<close>

function gillespie_loop :: "run_params \<Rightarrow> sim \<Rightarrow> py_error + sim" where
  "gillespie_loop P st =
     (if flt (current_time st) (Fin (p_tmax P)) \<and> n_counter st < p_n_max P - 1 then
        (case gillespie_step P st of
           Inl e \<Rightarrow> Inl e
         | Inr st' \<Rightarrow> gillespie_loop P st')
      else Inr st)"
  by pat_completeness auto
termination
  by (relation "measure (\<lambda>(P, st). p_n_max P - 1 - n_counter st)")
    (auto simp: gillespie_step_def Let_def split: sum.splits prod.splits)

declare gillespie_loop.simps [simp del]

text \<open>
  Step 0. A negative \<^verbatim>\<open>n_max\<close> is refused by \<^verbatim>\<open>random_sample\<close>; with
  \<^verbatim>\<open>n_max = 0\<close> the first write \<^verbatim>\<open>store_time[n_counter] = current_time\<close> is out
  of range. \<^verbatim>\<open>number_synapses = int((len(init)-1)/2)\<close> truncates towards zero.
\<close>

definition gillespie_run ::
  "int list \<Rightarrow> real list \<Rightarrow> int list list \<Rightarrow> int list list \<Rightarrow> real \<Rightarrow> int \<Rightarrow>
   (nat \<Rightarrow> real) \<Rightarrow> (nat \<Rightarrow> real) \<Rightarrow> py_error + (run_params \<times> sim)" where
  "gillespie_run init rates sub_stoch prod_stoch tmax n_max r1 r2 =
     (if n_max < 0 then Inl ValueError
      else
       (case mat_add sub_stoch prod_stoch of
          Inl e \<Rightarrow> Inl e
        | Inr stoch \<Rightarrow>
           (let number_species = (case stoch of [] \<Rightarrow> 0 | r # rs \<Rightarrow> length r);
                number_synapses = (length init - 1) div 2;
                N = nat n_max
            in if N = 0 then Inl IndexError
               else
                (case assign_row number_species init of
                   Inl e \<Rightarrow> Inl e
                 | Inr row \<Rightarrow>
                    (let P = \<lparr> p_rates = rates, p_sub_stoch = sub_stoch, p_stoch = stoch,
                              p_number_species = number_species,
                              p_number_synapses = number_synapses,
                              p_tmax = tmax, p_n_max = N, p_r1 = r1, p_r2 = r2 \<rparr>;
                         st = \<lparr> current_time = Fin 0,
                               current_species = init,
                               n_counter = 0,
                               store_time = (replicate N (Fin 0))[0 := Fin 0],
                               store_number_molecules =
                                 (replicate N (replicate number_species 0))[0 := row],
                               store_time_difference =
                                 replicate N (replicate number_synapses (Fin 0)) \<rparr>
                     in (case gillespie_loop P st of
                           Inl e \<Rightarrow> Inl e
                         | Inr st' \<Rightarrow> Inr (P, st')))))))"

subsection \<open>\<^verbatim>\<open>gillespie_algo\<close>: the coefficient of variation\<close>






subsection \<open>Python string operations used by the parser\<close>

text \<open>
  Strings are lists of ASCII characters, which is what the docstring of
  \<^verbatim>\<open>reactions_stoch\<close> allows. \<^verbatim>\<open>s.split(sep)\<close> cuts at every occurrence of a
  non-empty separator, found from left to right without overlap; \<open>acc\<close> holds the
  current piece, reversed.
\<close>

function split_from :: "string \<Rightarrow> string \<Rightarrow> string \<Rightarrow> string list" where
  "split_from sep acc [] = [rev acc]"
| "split_from sep acc (c # cs) =
     (if sep \<noteq> [] \<and> take (length sep) (c # cs) = sep
      then rev acc # split_from sep [] (drop (length sep) (c # cs))
      else split_from sep (c # acc) cs)"
  by pat_completeness auto
termination
  by (relation "measure (\<lambda>(sep, acc, s). length s)") auto

definition py_split :: "string \<Rightarrow> string \<Rightarrow> string list" where
  "py_split sep s = split_from sep [] s"

definition is_digit :: "char \<Rightarrow> bool" where
  "is_digit c = (48 \<le> (of_char c :: nat) \<and> (of_char c :: nat) \<le> 57)"

definition isdigit :: "string \<Rightarrow> bool" where
  \<comment> \<open>\<^verbatim>\<open>str.isdigit\<close>: false on the empty string.\<close>
  "isdigit s = (s \<noteq> [] \<and> list_all is_digit s)"

definition digit_value :: "char \<Rightarrow> int" where
  "digit_value c = int (of_char c :: nat) - 48"

definition decimal :: "string \<Rightarrow> int" where
  "decimal s = foldl (\<lambda>n c. 10 * n + digit_value c) 0 s"

definition is_space :: "char \<Rightarrow> bool" where
  "is_space c = (of_char c \<in> {9, 10, 11, 12, 13, 28, 29, 30, 31, 32 :: nat})"

definition strip :: "string \<Rightarrow> string" where
  "strip s = rev (dropWhile is_space (rev (dropWhile is_space s)))"

fun underscores_ok :: "string \<Rightarrow> bool" where
  \<comment> \<open>digits, with single underscores only between two digits\<close>
  "underscores_ok [] = False"
| "underscores_ok [c] = is_digit c"
| "underscores_ok (c # d # cs) =
     (is_digit c \<and>
      (if d = CHR ''_'' then underscores_ok cs else underscores_ok (d # cs)))"

definition py_int :: "string \<Rightarrow> py_error + int" where
  \<comment> \<open>\<^verbatim>\<open>int(s)\<close> on a string: surrounding white space, one optional sign, decimal
      digits; anything else raises.\<close>
  "py_int s =
     (let t = strip s;
          (sign, body) = (case t of
                            [] \<Rightarrow> (1, [])
                          | c # cs \<Rightarrow> if c = CHR ''-'' then (- 1, cs)
                                      else if c = CHR ''+'' then (1, cs)
                                      else (1, t))
      in if underscores_ok body
         then Inr (sign * decimal (filter (\<lambda>c. c \<noteq> CHR ''_'') body))
         else Inl ValueError)"

subsection \<open>\<^verbatim>\<open>reactions_stoch\<close>\<close>

text \<open>
  The first loop: \<^verbatim>\<open>s_p = i.split("->")\<close>, then \<^verbatim>\<open>s_p[0]\<close> and \<^verbatim>\<open>s_p[1]\<close>.
  Pieces after the second are dropped without notice.
\<close>

fun split_sides :: "string list \<Rightarrow> py_error + (string list \<times> string list)" where
  "split_sides [] = Inr ([], [])"
| "split_sides (i # rest) =
     (let s_p = py_split ''->'' i
      in case py_get s_p 0 of
           Inl e \<Rightarrow> Inl e
         | Inr s \<Rightarrow>
        (case py_get s_p 1 of
           Inl e \<Rightarrow> Inl e
         | Inr p \<Rightarrow>
        (case split_sides rest of
           Inl e \<Rightarrow> Inl e
         | Inr (substrates, products) \<Rightarrow> Inr (s # substrates, p # products))))"

text \<open>
  One term \<open>j\<close> of a side: \<^verbatim>\<open>j = j.split("X")\<close>; the coefficient is \<^verbatim>\<open>int(j[0])\<close>
  when \<^verbatim>\<open>j[0].isdigit()\<close> and 1 otherwise; only a term with exactly one \<open>X\<close> yields a
  pair \<open>(coefficient, species)\<close>, and \<^verbatim>\<open>int(j[1])\<close> may raise. The running maximum
  \<^verbatim>\<open>total_number_species\<close> is threaded through as \<open>tns\<close>.
\<close>

definition parse_term :: "string \<Rightarrow> int \<Rightarrow> py_error + ((int \<times> int) option \<times> int)" where
  "parse_term j tns =
     (let parts = py_split ''X'' j;
          number = (if isdigit (hd parts) then decimal (hd parts) else 1)
      in if length parts = 2 then
           (case py_int (parts ! 1) of
              Inl e \<Rightarrow> Inl e
            | Inr k \<Rightarrow> Inr (Some (number, k), if k > tns then k else tns))
         else Inr (None, tns))"

fun parse_side :: "string list \<Rightarrow> int \<Rightarrow> py_error + ((int \<times> int) list \<times> int)" where
  "parse_side [] tns = Inr ([], tns)"
| "parse_side (j # js) tns =
     (case parse_term j tns of
        Inl e \<Rightarrow> Inl e
      | Inr (t, tns') \<Rightarrow>
     (case parse_side js tns' of
        Inl e \<Rightarrow> Inl e
      | Inr (ts, tns'') \<Rightarrow>
          Inr ((case t of None \<Rightarrow> ts | Some x \<Rightarrow> x # ts), tns'')))"

text \<open>
  The loop over the reactions of one kind of side. A side without any species term is
  not appended: \<^verbatim>\<open>if len(sub_one_reaction) >= 1\<close>.
\<close>

fun parse_sides :: "string list list \<Rightarrow> int \<Rightarrow> py_error + ((int \<times> int) list list \<times> int)" where
  "parse_sides [] tns = Inr ([], tns)"
| "parse_sides (i # rest) tns =
     (case parse_side i tns of
        Inl e \<Rightarrow> Inl e
      | Inr (one_reaction, tns') \<Rightarrow>
     (case parse_sides rest tns' of
        Inl e \<Rightarrow> Inl e
      | Inr (number_reaction, tns'') \<Rightarrow>
          Inr (if length one_reaction \<ge> 1 then one_reaction # number_reaction
               else number_reaction, tns'')))"

text \<open>
  Filling a matrix: \<^verbatim>\<open>stoch[reaction][species[1]-1] = int(sign * species[0])\<close>, where
  \<open>reaction\<close> counts the entries of the list that was built above.
\<close>

fun fill_row :: "(int \<Rightarrow> int) \<Rightarrow> (int \<times> int) list \<Rightarrow> int list \<Rightarrow> py_error + int list" where
  "fill_row f [] row = Inr row"
| "fill_row f (species # rest) row =
     (case py_set row (snd species - 1) (f (fst species)) of
        Inl e \<Rightarrow> Inl e
      | Inr row' \<Rightarrow> fill_row f rest row')"

fun fill :: "(int \<Rightarrow> int) \<Rightarrow> (int \<times> int) list list \<Rightarrow> nat \<Rightarrow> int list list \<Rightarrow> py_error + int list list" where
  "fill f [] reaction stoch = Inr stoch"
| "fill f (one_reaction # rest) reaction stoch =
     (case fill_row f one_reaction (stoch ! reaction) of
        Inl e \<Rightarrow> Inl e
      | Inr row \<Rightarrow> fill f rest (Suc reaction) (stoch[reaction := row]))"

definition reactions_stoch :: "string \<Rightarrow> py_error + (int list list \<times> int list list)" where
  "reactions_stoch reactions =
     (let one_reaction = py_split '','' reactions
      in case split_sides one_reaction of
           Inl e \<Rightarrow> Inl e
         | Inr (substrates, products) \<Rightarrow>
        (case parse_sides (map (py_split ''+'') substrates) 0 of
           Inl e \<Rightarrow> Inl e
         | Inr (sub_number_reaction, tns) \<Rightarrow>
        (case parse_sides (map (py_split ''+'') products) tns of
           Inl e \<Rightarrow> Inl e
         | Inr (prod_number_reaction, total_number_species) \<Rightarrow>
             let zeros = replicate (length one_reaction)
                           (replicate (nat total_number_species) (0::int))
             in (case fill uminus sub_number_reaction 0 zeros of
                   Inl e \<Rightarrow> Inl e
                 | Inr sub_stoch \<Rightarrow>
                (case fill (\<lambda>x. x) prod_number_reaction 0 zeros of
                   Inl e \<Rightarrow> Inl e
                 | Inr prod_stoch \<Rightarrow> Inr (sub_stoch, prod_stoch))))))"

subsection \<open>The propensity as the specification words it\<close>

text \<open>
  \<open>h(n, m) = C(n, m) * m!\<close>, and the propensity of a reaction as the rate times the
  product of \<open>h\<close> over the species with a nonzero substrate entry. These two follow the
  specification, not the source; they are what the source is compared with.
  \<open>sufficient\<close> says that every species a reaction consumes is either absent or
  present in at least the consumed number.
\<close>

definition h_spec :: "nat \<Rightarrow> nat \<Rightarrow> int" where
  "h_spec n m = int (n choose m) * int (fact m)"

definition propensity_spec :: "real \<Rightarrow> int list \<Rightarrow> int list \<Rightarrow> real" where
  "propensity_spec rate row cs =
     rate * of_int (\<Prod>j\<leftarrow>filter (\<lambda>j. row ! j \<noteq> 0) [0..<length row].
                      h_spec (nat (cs ! j)) (nat \<bar>row ! j\<bar>))"


subsection \<open>Observations on a run, and test data\<close>



definition recorded_states ::
  "int list \<Rightarrow> real list \<Rightarrow> int list list \<Rightarrow> int list list \<Rightarrow> real \<Rightarrow> int \<Rightarrow>
   (nat \<Rightarrow> real) \<Rightarrow> (nat \<Rightarrow> real) \<Rightarrow> py_error + int list list" where
  "recorded_states init rates sub_stoch prod_stoch tmax n_max r1 r2 =
     (case gillespie_run init rates sub_stoch prod_stoch tmax n_max r1 r2 of
        Inl e \<Rightarrow> Inl e
      | Inr (P, st) \<Rightarrow> Inr (take (Suc (n_counter st)) (store_number_molecules st)))"

text \<open>A stream of draws that repeats one value.\<close>

definition constant_draws :: "real \<Rightarrow> nat \<Rightarrow> real" where
  "constant_draws x k = x"

text \<open>
  The weighted total \<open>v \<cdot> state\<close> of a state, and the two invariants of the loop that
  the proofs below carry: the bookkeeping of the stores, and the conserved total.
\<close>

definition dot :: "real list \<Rightarrow> int list \<Rightarrow> real" where
  "dot v x = (\<Sum>(a, b)\<leftarrow>zip v x. a * of_int b)"

definition loop_inv :: "run_params \<Rightarrow> sim \<Rightarrow> bool" where
  "loop_inv P st \<longleftrightarrow>
     n_counter st < p_n_max P \<and>
     length (store_time st) = p_n_max P \<and>
     length (store_number_molecules st) = p_n_max P \<and>
     length (store_time_difference st) = p_n_max P \<and>
     (\<forall>k < n_counter st. flt (store_time st ! k) (Fin (p_tmax P))) \<and>
     store_time st ! n_counter st = current_time st"

definition conserved :: "real list \<Rightarrow> int list \<Rightarrow> run_params \<Rightarrow> sim \<Rightarrow> bool" where
  "conserved v init P st \<longleftrightarrow>
     length (current_species st) = length init \<and>
     dot v (current_species st) = dot v init \<and>
     n_counter st < length (store_number_molecules st) \<and>
     (\<forall>k \<le> n_counter st. dot v (store_number_molecules st ! k) = dot v init)"

subsection \<open>The statistic as the specification words it\<close>



subsection \<open>A reaction without separator\<close>

text \<open>Whether the two characters \<^verbatim>\<open>->\<close> occur in a piece of the reaction text.\<close>

fun has_arrow :: "string \<Rightarrow> bool" where
  "has_arrow (a # b # cs) = (a = CHR ''-'' \<and> b = CHR ''>'' \<or> has_arrow (b # cs))"
| "has_arrow cs = False"

subsection \<open>Valid input\<close>




section \<open>Properties\<close>

lemma length_pascal_inner [simp]: "length (pascal_inner k b) = length b"
  by (induction k arbitrary: b) simp_all

lemma pascal_inner_nth:
  "k < length b \<Longrightarrow> j < length b \<Longrightarrow>
   pascal_inner k b ! j = (if 1 \<le> j \<and> j \<le> k then b ! j + b ! (j - 1) else b ! j)"
proof (induction k arbitrary: b)
  case 0
  then show ?case by simp
next
  case (Suc k)
  let ?b = "b[Suc k := b ! Suc k + b ! k]"
  have "pascal_inner (Suc k) b ! j = pascal_inner k ?b ! j" by simp
  also have "\<dots> = (if 1 \<le> j \<and> j \<le> k then ?b ! j + ?b ! (j - 1) else ?b ! j)"
    using Suc.prems by (intro Suc.IH) simp_all
  also have "\<dots> = (if 1 \<le> j \<and> j \<le> Suc k then b ! j + b ! (j - 1) else b ! j)"
    using Suc.prems by (auto simp: nth_list_update)
  finally show ?case .
qed

subsection \<open>\<^verbatim>\<open>calculate_hi\<close> computes a row of Pascal's triangle\<close>

lemma pascal_step_nth:
  assumes len: "length b = n + 1" and i: "Suc i \<le> n" and k: "k \<le> n"
    and vals: "\<And>j. j \<le> n \<Longrightarrow> b ! j = (if j \<le> i then int (i choose j) else 0)"
  shows "pascal_step b (Suc i) ! k = (if k \<le> Suc i then int (Suc i choose k) else 0)"
proof -
  define c where "c = b[Suc i := 1]"
  have lc: "length c = n + 1" by (simp add: c_def len)
  have cv: "\<And>j. j \<le> n \<Longrightarrow> c ! j = (if j = Suc i then 1 else b ! j)"
    by (simp add: c_def nth_list_update len)
  have "pascal_step b (Suc i) ! k = pascal_inner i c ! k"
    by (simp add: pascal_step_def c_def)
  also have "\<dots> = (if 1 \<le> k \<and> k \<le> i then c ! k + c ! (k - 1) else c ! k)"
    using i k lc by (intro pascal_inner_nth) simp_all
  also have "\<dots> = (if k \<le> Suc i then int (Suc i choose k) else 0)"
  proof (cases k)
    case 0
    then show ?thesis using cv[of 0] vals[of 0] by simp
  next
    case (Suc k')
    show ?thesis
    proof (cases "k \<le> i")
      case True
      then show ?thesis using Suc cv[of k] cv[of k'] vals[of k] vals[of k'] k by simp
    next
      case False
      show ?thesis
      proof (cases "k = Suc i")
        case True
        then show ?thesis using cv[of k] k by simp
      next
        case ne: False
        then show ?thesis using False cv[of k] vals[of k] k by simp
      qed
    qed
  qed
  finally show ?thesis .
qed

lemma pascal_fold_nth:
  "i \<le> n \<Longrightarrow>
   length (foldl pascal_step ((replicate (n + 1) 0)[0 := 1]) [1..<i + 1]) = n + 1 \<and>
   (\<forall>k\<le>n. foldl pascal_step ((replicate (n + 1) 0)[0 := 1]) [1..<i + 1] ! k
       = (if k \<le> i then int (i choose k) else 0))"
proof (induction i)
  case 0
  show ?case
  proof (intro conjI allI impI)
    fix k assume "k \<le> n"
    then show "foldl pascal_step ((replicate (n + 1) 0)[0 := 1]) [1..<0 + 1] ! k
       = (if k \<le> 0 then int (0 choose k) else 0)"
      by (cases k) simp_all
  qed simp
next
  case (Suc i)
  define b where "b = foldl pascal_step ((replicate (n + 1) 0)[0 := 1]) [1..<i + 1]"
  have len: "length b = n + 1"
    and vals: "\<And>j. j \<le> n \<Longrightarrow> b ! j = (if j \<le> i then int (i choose j) else 0)"
    using Suc by (simp_all add: b_def)
  have step: "foldl pascal_step ((replicate (n + 1) 0)[0 := 1]) [1..<Suc i + 1] = pascal_step b (Suc i)"
    by (simp add: b_def)
  have "length (pascal_step b (Suc i)) = n + 1" by (simp add: pascal_step_def len)
  moreover have "\<forall>k\<le>n. pascal_step b (Suc i) ! k = (if k \<le> Suc i then int (Suc i choose k) else 0)"
    using pascal_step_nth[OF len _ _ vals] Suc.prems by blast
  ultimately show ?case unfolding step by blast
qed

lemma pascal_row_nth: "k \<le> n \<Longrightarrow> pascal_row n ! k = int (n choose k)"
  using pascal_fold_nth[of n n] by (simp add: pascal_row_def)

lemma length_pascal_row: "length (pascal_row n) = n + 1"
  using pascal_fold_nth[of n n] by (simp add: pascal_row_def)


lemma calculate_hi_choose:
  "0 \<le> m \<Longrightarrow> m \<le> n \<Longrightarrow> calculate_hi n m = Inr (h_spec (nat n) (nat m))"
  by (simp add: calculate_hi_def py_get_def py_index_def length_pascal_row pascal_row_nth
      factorial_def h_spec_def)

lemma calculate_hi_short_row:
  "0 \<le> n \<Longrightarrow> n < m \<Longrightarrow> calculate_hi n m = Inl IndexError"
  by (simp add: calculate_hi_def py_get_def py_index_def length_pascal_row)





lemma calculate_hi_5_2: "calculate_hi 5 2 = Inr 20"
  using calculate_hi_choose[of 2 5] by (simp add: h_spec_def binomial_fact_lemma numeral_eq_Suc)

lemma calculate_hi_m_zero: "0 \<le> n \<Longrightarrow> calculate_hi n 0 = Inr 1"
  using calculate_hi_choose[of 0 n] by (simp add: h_spec_def)

text \<open>
  Claim C1. The propensity of reaction \<open>r\<close> is the rate times the product of
  \<open>h(n_s, m_{r,s})\<close> for every state of non-negative counts. The source computes that
  product whenever each consumed species is absent or sufficient
  (\<open>propensities_spec\<close> above), and \<open>h(5,2) = 20\<close>, \<open>h(n,0) = 1\<close> hold. With one
  molecule of a species of which a reaction consumes two, the formula gives 0, but
  \<^verbatim>\<open>calculate_hi(1, 2)\<close> reads \<^verbatim>\<open>b[2]\<close> in a row of length 2 and raises.
\<close>

theorem C1_propensity_raises_below_requirement:
  "propensities [[- 2, 0]] [1] [1, 0] 0 = Inl IndexError
   \<and> propensity_spec 1 [- 2, 0] [1, 0] = 0"
  by (simp add: reaction_hi_def calculate_hi_short_row propensity_spec_def h_spec_def)

text \<open>A consumed species with no molecule left forces the factor \<open>hi\<close> to 0.\<close>

lemma hi_loop_from_zero: "hi_loop row cs js 0 = Inr h \<Longrightarrow> h = 0"
  by (induction js arbitrary: h) (auto split: if_splits sum.splits)

lemma hi_loop_absent_species:
  "j \<in> set js \<Longrightarrow> row ! j \<noteq> 0 \<Longrightarrow> cs ! j \<le> 0 \<Longrightarrow> hi_loop row cs js hi = Inr h \<Longrightarrow> h = 0"
proof (induction js arbitrary: hi)
  case Nil
  then show ?case by simp
next
  case (Cons i js)
  show ?case
  proof (cases "i = j")
    case True
    then show ?thesis using Cons.prems by (auto split: if_splits dest: hi_loop_from_zero)
  next
    case False
    then have "j \<in> set js" using Cons.prems(1) by simp
    then show ?thesis using Cons.prems Cons.IH
      by (auto split: if_splits sum.splits)
  qed
qed

lemma propensity_zero_rule:
  "j < length row \<Longrightarrow> row ! j \<noteq> 0 \<Longrightarrow> cs ! j \<le> 0 \<Longrightarrow> reaction_hi row cs = Inr h \<Longrightarrow> h = 0"
  unfolding reaction_hi_def by (rule hi_loop_absent_species[of j "[0..<length row]"]) simp_all

text \<open>
  Claim C5. The propensity computation never raises, and a reaction whose species is
  short of molecules has propensity 0. For a count of 0 the source sets the factor to 0
  (\<open>propensity_zero_rule\<close>); for a positive count below the requirement (here one
  molecule of the second species, of which the reaction consumes four) it raises
  \<^verbatim>\<open>IndexError\<close> instead.
\<close>

theorem C5_insufficient_molecules_raise:
  "propensities [[- 1, - 4]] [2] [3, 1] 0 = Inl IndexError"
  by (simp add: reaction_hi_def calculate_hi_short_row calculate_hi_choose)

subsection \<open>The event sampler\<close>






subsection \<open>The event loop\<close>

lemma gillespie_loop_invariant:
  assumes "gillespie_loop P st = Inr st'" and "I st"
    and "\<And>s s'. I s \<Longrightarrow> flt (current_time s) (Fin (p_tmax P)) \<Longrightarrow>
                 n_counter s < p_n_max P - 1 \<Longrightarrow> gillespie_step P s = Inr s' \<Longrightarrow> I s'"
  shows "I st' \<and> \<not> (flt (current_time st') (Fin (p_tmax P)) \<and> n_counter st' < p_n_max P - 1)"
  using assms
proof (induction P st rule: gillespie_loop.induct)
  case (1 P st)
  show ?case
  proof (cases "flt (current_time st) (Fin (p_tmax P)) \<and> n_counter st < p_n_max P - 1")
    case False
    then have "gillespie_loop P st = Inr st" by (subst gillespie_loop.simps) auto
    then show ?thesis using "1.prems"(1,2) False by simp
  next
    case True
    then obtain s where s: "gillespie_step P st = Inr s" and rest: "gillespie_loop P s = Inr st'"
      using "1.prems"(1) by (subst (asm) gillespie_loop.simps) (auto split: sum.splits)
    have "I s" using "1.prems"(3)[OF "1.prems"(2) _ _ s] True by simp
    then show ?thesis using "1.IH"[OF True s rest _ "1.prems"(3)] by simp
  qed
qed

lemma gillespie_step_fields:
  assumes "gillespie_step P st = Inr st'"
  shows "n_counter st' = Suc (n_counter st)"
    and "store_time st' = (store_time st)[Suc (n_counter st) := current_time st']"
    and "length (store_number_molecules st') = length (store_number_molecules st)"
    and "length (store_time_difference st') = length (store_time_difference st)"
  using assms
  by (auto simp: gillespie_step_def Let_def split: sum.splits prod.splits)

lemma loop_inv_step:
  assumes "loop_inv P st" and "flt (current_time st) (Fin (p_tmax P))"
    and "n_counter st < p_n_max P - 1" and "gillespie_step P st = Inr st'"
  shows "loop_inv P st'"
proof -
  note f = gillespie_step_fields[OF assms(4)]
  have len: "length (store_time st) = p_n_max P" and n: "Suc (n_counter st) < p_n_max P"
    using assms(1,3) by (auto simp: loop_inv_def)
  have "\<forall>k < Suc (n_counter st). flt (store_time st' ! k) (Fin (p_tmax P))"
  proof (intro allI impI)
    fix k assume k: "k < Suc (n_counter st)"
    then have "store_time st' ! k = store_time st ! k" by (simp add: f(2))
    moreover have "flt (store_time st ! k) (Fin (p_tmax P))"
      using k assms(1,2) by (cases "k = n_counter st") (auto simp: loop_inv_def)
    ultimately show "flt (store_time st' ! k) (Fin (p_tmax P))" by simp
  qed
  moreover have "store_time st' ! Suc (n_counter st) = current_time st'"
    using len n by (simp add: f(2))
  ultimately show ?thesis
    using assms(1) n f by (simp add: loop_inv_def)
qed

lemma gillespie_run_params:
  assumes "gillespie_run init rates sub_stoch prod_stoch tmax n_max r1 r2 = Inr (P, st)"
  shows "0 < n_max" and "p_n_max P = nat n_max" and "p_tmax P = tmax"
    and "mat_add sub_stoch prod_stoch = Inr (p_stoch P)"
    and "p_number_species P = (case p_stoch P of [] \<Rightarrow> 0 | r # rs \<Rightarrow> length r)"
    and "p_number_synapses P = (length init - 1) div 2"
    and "\<exists>row. assign_row (p_number_species P) init = Inr row \<and>
           gillespie_loop P
             \<lparr> current_time = Fin 0, current_species = init, n_counter = 0,
               store_time = (replicate (nat n_max) (Fin 0))[0 := Fin 0],
               store_number_molecules =
                 (replicate (nat n_max) (replicate (p_number_species P) 0))[0 := row],
               store_time_difference =
                 replicate (nat n_max) (replicate (p_number_synapses P) (Fin 0)) \<rparr> = Inr st"
  using assms
  by (auto simp: gillespie_run_def Let_def split: if_splits sum.splits)



lemma ln_inv_exp [simp]: "ln (1 / exp (- x)) = (x::real)"
proof -
  have "1 / exp (- x) = exp x" by (simp add: exp_minus divide_inverse)
  then show ?thesis by simp
qed

lemmas run_simps = gillespie_run_def mat_add_def shape_def assign_row_def add_row_def
  gillespie_step_def next_values_def py_get_def py_index_def reaction_hi_def
  calculate_hi_choose h_spec_def constant_draws_def Let_def gillespie_loop.simps scan.simps






subsection \<open>Valid runs return\<close>



















subsection \<open>Conservation\<close>

lemma scan_in_range: "scan a mu N = Inr m \<Longrightarrow> mu < length a \<Longrightarrow> m < length a"
proof (induction a mu N rule: scan.induct)
  case (1 a mu N)
  show ?case
  proof (cases "0 < N")
    case False
    then show ?thesis using "1.prems" by (subst (asm) scan.simps) simp
  next
    case True
    then have more: "Suc mu < length a" and "scan a (Suc mu) (N - a ! Suc mu) = Inr m"
      using "1.prems"(1) by (subst (asm) scan.simps, simp split: if_splits)+
    then show ?thesis using "1.IH"[OF True more] by simp
  qed
qed

lemma next_values_in_range: "next_values a0 a r1 r2 = Inr (dt, mu) \<Longrightarrow> mu < length a"
  by (auto simp: next_values_def Let_def py_get_def py_index_def
      split: if_splits sum.splits option.splits dest: scan_in_range)

lemma length_propensities: "propensities rows rates cs i = Inr a \<Longrightarrow> length a = length rows"
  by (induction rows arbitrary: i a) (auto split: sum.splits if_splits)

lemma length_mat_add: "mat_add A B = Inr C \<Longrightarrow> length C = length A"
  by (auto simp: mat_add_def shape_def split: if_splits list.splits)

lemma dot_add:
  "length x = length y \<Longrightarrow> dot v (map2 (+) x y) = dot v x + dot v y"
proof (induction v arbitrary: x y)
  case Nil
  then show ?case by (simp add: dot_def)
next
  case (Cons a v)
  then show ?case
    by (cases x; cases y) (simp_all add: dot_def algebra_simps)
qed

lemma gillespie_step_species:
  assumes "gillespie_step P st = Inr st'"
  shows "\<exists>next_r row. next_r < length (p_sub_stoch P)
           \<and> add_row (current_species st) (p_stoch P ! next_r) = Inr (current_species st')
           \<and> assign_row (p_number_species P) (current_species st') = Inr row
           \<and> store_number_molecules st' = (store_number_molecules st)[Suc (n_counter st) := row]"
  using assms
  by (auto simp: gillespie_step_def Let_def split: sum.splits prod.splits
      dest!: next_values_in_range length_propensities)

lemma conserved_step:
  assumes "conserved v init P st" and "gillespie_step P st = Inr st'"
    and "length (p_stoch P) = length (p_sub_stoch P)"
    and "\<forall>row \<in> set (p_stoch P). length row = length init \<and> dot v row = 0"
    and "p_number_species P = length init"
    and "Suc (n_counter st) < length (store_number_molecules st)"
  shows "conserved v init P st'"
proof -
  from gillespie_step_species[OF assms(2)] obtain next_r row where
    r: "next_r < length (p_sub_stoch P)"
    and add: "add_row (current_species st) (p_stoch P ! next_r) = Inr (current_species st')"
    and asg: "assign_row (p_number_species P) (current_species st') = Inr row"
    and store: "store_number_molecules st' = (store_number_molecules st)[Suc (n_counter st) := row]"
    by blast
  have row_ok: "length (p_stoch P ! next_r) = length init" "dot v (p_stoch P ! next_r) = 0"
    using r assms(3,4) by simp_all
  have len0: "length (current_species st) = length init" and d0: "dot v (current_species st) = dot v init"
    and old: "\<forall>k \<le> n_counter st. dot v (store_number_molecules st ! k) = dot v init"
    using assms(1) by (simp_all add: conserved_def)
  have cs': "current_species st' = map2 (+) (current_species st) (p_stoch P ! next_r)"
    using add row_ok(1) len0 by (simp add: add_row_def)
  have len': "length (current_species st') = length init" using cs' row_ok(1) len0 by simp
  have d': "dot v (current_species st') = dot v init"
    using cs' dot_add[of "current_species st" "p_stoch P ! next_r" v] row_ok len0 d0 by simp
  have row: "row = current_species st'" using asg len' assms(5) by (simp add: assign_row_def)
  have n': "n_counter st' = Suc (n_counter st)" using gillespie_step_fields(1)[OF assms(2)] .
  have "\<forall>k \<le> Suc (n_counter st). dot v (store_number_molecules st' ! k) = dot v init"
    using old d' row assms(6) by (auto simp: store nth_list_update le_Suc_eq)
  then show ?thesis using len' d' n' assms(6) store by (simp add: conserved_def)
qed

text \<open>
  Claim C10. For a network with at least one reaction whose combined rows have one entry
  per species, and a weighting \<open>v\<close> with \<open>v \<cdot> (sub + prod)[r] = 0\<close> for every reaction
  \<open>r\<close>, every state that a run records has the weighted total of the initial state.
\<close>

theorem C10_conservation:
  assumes "mat_add sub_stoch prod_stoch = Inr stoch" and "stoch \<noteq> []"
    and "\<forall>row \<in> set stoch. length row = length init \<and> dot v row = 0"
    and "recorded_states init rates sub_stoch prod_stoch tmax n_max r1 r2 = Inr states"
  shows "\<forall>state \<in> set states. dot v state = dot v init"
proof -
  from assms(4) obtain P st where
    run: "gillespie_run init rates sub_stoch prod_stoch tmax n_max r1 r2 = Inr (P, st)"
    and states: "states = take (Suc (n_counter st)) (store_number_molecules st)"
    by (auto simp: recorded_states_def split: sum.splits)
  note p = gillespie_run_params[OF run]
  have stoch: "p_stoch P = stoch" using p(4) assms(1) by simp
  have S: "p_number_species P = length init"
    using p(5) assms(2,3) stoch by (cases stoch) auto
  have sub: "p_sub_stoch P = sub_stoch"
    using run by (auto simp: gillespie_run_def Let_def split: if_splits sum.splits)
  have lenS: "length (p_stoch P) = length (p_sub_stoch P)"
    using length_mat_add[OF assms(1)] stoch sub by simp
  from p(7) obtain row where row: "assign_row (p_number_species P) init = Inr row"
    and loop: "gillespie_loop P
             \<lparr> current_time = Fin 0, current_species = init, n_counter = 0,
               store_time = (replicate (nat n_max) (Fin 0))[0 := Fin 0],
               store_number_molecules =
                 (replicate (nat n_max) (replicate (p_number_species P) 0))[0 := row],
               store_time_difference =
                 replicate (nat n_max) (replicate (p_number_synapses P) (Fin 0)) \<rparr> = Inr st"
    (is "gillespie_loop P ?st0 = _") by blast
  have row_init: "row = init" using row S by (simp add: assign_row_def)
  let ?I = "\<lambda>s. conserved v init P s \<and> loop_inv P s"
  have I0: "?I ?st0" using p(1,2) row_init by (simp add: conserved_def loop_inv_def)
  have "?I st \<and> \<not> (flt (current_time st) (Fin (p_tmax P)) \<and> n_counter st < p_n_max P - 1)"
  proof (rule gillespie_loop_invariant[OF loop, of ?I, OF I0])
    fix s s' assume a: "?I s" "flt (current_time s) (Fin (p_tmax P))"
      "n_counter s < p_n_max P - 1" "gillespie_step P s = Inr s'"
    then have "Suc (n_counter s) < length (store_number_molecules s)"
      by (simp add: loop_inv_def)
    then have "conserved v init P s'"
      using a conserved_step[of v init P s s'] lenS assms(3) stoch S by simp
    then show "?I s'" using a loop_inv_step by blast
  qed
  then have c: "conserved v init P st" by simp
  show ?thesis
  proof
    fix state assume "state \<in> set states"
    then obtain k where "k < Suc (n_counter st)" "state = store_number_molecules st ! k"
      unfolding states using c by (auto simp: in_set_conv_nth conserved_def)
    then show "dot v state = dot v init" using c by (simp add: conserved_def)
  qed
qed

lemma closed_network_states:
  "recorded_states [1, 0] [1, 1] [[- 1, 0], [0, - 1]] [[0, 1], [1, 0]] 10 3
     (constant_draws (exp (- 1))) (constant_draws (1/2)) = Inr [[1, 0], [0, 1], [1, 0]]"
  by (simp add: recorded_states_def run_simps numeral_3_eq_3)

theorem C10_conservation_witness:
  "mat_add [[- 1, 0], [0, - 1]] [[0, 1], [1, 0]] = Inr [[- 1, 1], [1, - 1]]
   \<and> dot [1, 1] [- 1, 1] = 0 \<and> dot [1, 1] [1, - 1] = 0
   \<and> recorded_states [1, 0] [1, 1] [[- 1, 0], [0, - 1]] [[0, 1], [1, 0]] 10 3
        (constant_draws (exp (- 1))) (constant_draws (1/2)) = Inr [[1, 0], [0, 1], [1, 0]]
   \<and> dot [1, 1] [0, 1] = dot [1, 1] [1, 0]"
proof -
  have m: "mat_add [[- 1, 0], [0, - 1]] [[0, 1], [1, 0]] = Inr [[- 1, 1], [1, - 1]]"
    by (simp add: mat_add_def shape_def)
  have z: "\<forall>row \<in> set [[- 1, 1], [1, - 1]]. length row = length [1, 0 :: int] \<and> dot [1, 1] row = 0"
    by (simp add: dot_def)
  have ne: "[[- 1, 1], [1, - 1 :: int]] \<noteq> []" by simp
  from C10_conservation[OF m ne z closed_network_states]
  have "dot [1, 1] [0, 1] = dot [1, 1] [1, 0]" by simp
  then show ?thesis using m z closed_network_states by simp
qed

subsection \<open>A state in which no reaction can fire\<close>







subsection \<open>The coefficient of variation\<close>









lemma map2_as_indices:
  "length xs = length ys \<Longrightarrow> map2 f xs ys = map (\<lambda>k. f (xs ! k) (ys ! k)) [0..<length ys]"
  by (rule nth_equalityI) simp_all


text \<open>
  The row that a step with a finite waiting time \<open>w\<close> writes into
  \<^verbatim>\<open>store_time_difference\<close> repeats \<open>w\<close>, which is the form of the rows in the
  statement below.
\<close>

lemma store_time_difference_row:
  "map (\<lambda>z. fadd z (Fin w)) (replicate ns (Fin 0)) = replicate ns (Fin w)"
  by simp





subsection \<open>The parser\<close>

lemma split_from_no_arrow:
  "\<not> has_arrow s \<Longrightarrow> split_from ''->'' acc s = [rev acc @ s]"
proof (induction s arbitrary: acc)
  case Nil
  then show ?case by simp
next
  case (Cons c cs)
  then have rest: "\<not> has_arrow cs" by (cases cs) auto
  have "take (length ''->'') (c # cs) \<noteq> ''->''"
    using Cons.prems by (cases cs) auto
  then have "split_from ''->'' acc (c # cs) = split_from ''->'' (c # acc) cs"
    by (simp only: split_from.simps if_False simp_thms)
  then show ?case using Cons.IH[OF rest] by simp
qed

lemma py_split_no_arrow: "\<not> has_arrow s \<Longrightarrow> py_split ''->'' s = [s]"
  by (simp add: py_split_def split_from_no_arrow)

lemma split_sides_no_arrow:
  "piece \<in> set pieces \<Longrightarrow> \<not> has_arrow piece \<Longrightarrow> split_sides pieces = Inl IndexError"
proof (induction pieces)
  case Nil
  then show ?case by simp
next
  case (Cons i rest)
  show ?case
  proof (cases "has_arrow i")
    case False
    then show ?thesis by (simp add: py_split_no_arrow py_get_def py_index_def)
  next
    case True
    then have "split_sides rest = Inl IndexError" using Cons by auto
    then show ?thesis
      by (auto simp: Let_def py_get_def py_index_def split: option.splits sum.splits)
  qed
qed

lemma fill_row_length: "fill_row f ts row = Inr row' \<Longrightarrow> length row' = length row"
  by (induction ts arbitrary: row)
    (auto simp: py_set_def split: sum.splits option.splits)

lemma fill_shape:
  "fill f rs i M = Inr M' \<Longrightarrow> \<forall>row \<in> set M. length row = w \<Longrightarrow>
   length M' = length M \<and> (\<forall>row \<in> set M'. length row = w)"
proof (induction rs arbitrary: i M)
  case Nil
  then show ?case by simp
next
  case (Cons r rs)
  from Cons.prems(1) obtain row where row: "fill_row f r (M ! i) = Inr row"
    and rest: "fill f rs (Suc i) (M[i := row]) = Inr M'"
    by (auto split: sum.splits)
  have "\<forall>x \<in> set (M[i := row]). length x = w"
  proof (cases "i < length M")
    case True
    then have "length row = w" using fill_row_length[OF row] Cons.prems(2) by simp
    then show ?thesis using Cons.prems(2) by (auto dest!: set_update_subset_insert[THEN subsetD])
  next
    case False
    then show ?thesis using Cons.prems(2) by (simp add: list_update_beyond)
  qed
  from Cons.IH[OF rest this] show ?case by simp
qed

lemma length_split_sides:
  "split_sides pieces = Inr (ss, ps) \<Longrightarrow> length ss = length pieces \<and> length ps = length pieces"
  by (induction pieces arbitrary: ss ps) (auto simp: Let_def split: sum.splits)

lemma reactions_stoch_shape:
  assumes "reactions_stoch reactions = Inr (sub_stoch, prod_stoch)"
  shows "length sub_stoch = length (py_split '','' reactions)
       \<and> length prod_stoch = length (py_split '','' reactions)
       \<and> (\<exists>w. \<forall>row \<in> set sub_stoch \<union> set prod_stoch. length row = w)"
proof -
  from assms obtain sn pn t where
    s: "fill uminus sn 0 (replicate (length (py_split '','' reactions)) (replicate (nat t) 0)) = Inr sub_stoch"
    and p: "fill (\<lambda>x. x) pn 0 (replicate (length (py_split '','' reactions)) (replicate (nat t) 0)) = Inr prod_stoch"
    by (auto simp: reactions_stoch_def Let_def split: sum.splits)
  have "length sub_stoch = length (py_split '','' reactions) \<and> (\<forall>row \<in> set sub_stoch. length row = nat t)"
    using fill_shape[OF s, of "nat t"] by simp
  moreover have "length prod_stoch = length (py_split '','' reactions) \<and> (\<forall>row \<in> set prod_stoch. length row = nat t)"
    using fill_shape[OF p, of "nat t"] by simp
  ultimately show ?thesis by auto
qed

lemma coefficient_defaults:
  "\<not> isdigit (hd (py_split ''X'' j)) \<Longrightarrow> parse_term j tns = Inr (Some (c, k), t) \<Longrightarrow> c = 1"
  by (auto simp: parse_term_def Let_def split: if_splits sum.splits)

text \<open>
  The network of the main program, in which every side has a term: each row is the
  reaction of the text.
\<close>

lemma receptor_network: "reactions_stoch ''X5+X9->X1,X6+X9->X2,X7+X9->X3,X8+X9->X4,X1->X5+X9,X2->X6+X9,X3->X7+X9,X4->X8+X9,X9->0X9,0X9->X9''
  = Inr ([[0, 0, 0, 0, - 1, 0, 0, 0, - 1], [0, 0, 0, 0, 0, - 1, 0, 0, - 1],
       [0, 0, 0, 0, 0, 0, - 1, 0, - 1], [0, 0, 0, 0, 0, 0, 0, - 1, - 1],
       [- 1, 0, 0, 0, 0, 0, 0, 0, 0], [0, - 1, 0, 0, 0, 0, 0, 0, 0],
       [0, 0, - 1, 0, 0, 0, 0, 0, 0], [0, 0, 0, - 1, 0, 0, 0, 0, 0],
       [0, 0, 0, 0, 0, 0, 0, 0, - 1], [0, 0, 0, 0, 0, 0, 0, 0, 0]],
      [[1, 0, 0, 0, 0, 0, 0, 0, 0], [0, 1, 0, 0, 0, 0, 0, 0, 0],
       [0, 0, 1, 0, 0, 0, 0, 0, 0], [0, 0, 0, 1, 0, 0, 0, 0, 0],
       [0, 0, 0, 0, 1, 0, 0, 0, 1], [0, 0, 0, 0, 0, 1, 0, 0, 1],
       [0, 0, 0, 0, 0, 0, 1, 0, 1], [0, 0, 0, 0, 0, 0, 0, 1, 1],
       [0, 0, 0, 0, 0, 0, 0, 0, 0], [0, 0, 0, 0, 0, 0, 0, 0, 1]])"
  by code_simp

text \<open>
  Claim C4. For every well-formed reaction string the two matrices have one row per
  reaction and one column per species, and the entry of reaction \<open>r\<close> and species \<open>s\<close>
  is minus the consumed, respectively plus the produced, coefficient. There is one row
  per reaction and all rows have one width (\<open>reactions_stoch_shape\<close>), and the
  receptor network above is parsed as claimed. For the degradation and synthesis network \<^verbatim>\<open>X1->0,0->X1\<close> of the
  specification the product \<open>X1\<close> of the second reaction is stored in the row of the
  first: a side without species term is not appended to the list the rows are filled
  from, and the later sides move up.
\<close>

theorem C4_empty_side_misplaces_entries:
  "reactions_stoch ''X1->0,0->X1'' = Inr ([[- 1], [0]], [[1], [0]])"
  by code_simp

text \<open>
  Claim C6. Row \<open>r\<close> of both matrices is the \<open>r\<close>-th reaction of the text also when a
  side has no species term. The example in the docstring of \<^verbatim>\<open>reactions_stoch\<close> has
  no product in its second reaction, and the product \<^verbatim>\<open>12X1\<close> of its third reaction
  is stored in the second row; the third row stays empty.
\<close>

theorem C6_docstring_example_rows_shift:
  "reactions_stoch ''2X1+X2->X3,X1->0,X3+4X2->12X1''
     = Inr ([[- 2, - 1, 0], [- 1, 0, 0], [0, - 4, - 1]], [[0, 0, 1], [12, 0, 0], [0, 0, 0]])"
  by code_simp

text \<open>
  Claim C8. Every malformed term, a non-numeric coefficient token or a reaction without
  \<^verbatim>\<open>->\<close>, is a parse error. A coefficient token that is not a number is read as 1:
\<close>

theorem C8_non_numeric_coefficient_accepted:
  "reactions_stoch ''aX1->X2'' = Inr ([[- 1, 0]], [[0, 1]])"
  by code_simp

text \<open>
  Claim C8, as the source has it. A reaction without \<^verbatim>\<open>->\<close> anywhere in the text
  makes the parser raise \<^verbatim>\<open>IndexError\<close> in its first loop, before any term is read,
  and nothing is returned. A coefficient token that \<^verbatim>\<open>isdigit\<close> rejects is no error:
  the term gets the coefficient 1.
\<close>

theorem C8_missing_arrow_raises:
  "(piece \<in> set (py_split '','' reactions) \<and> \<not> has_arrow piece
      \<longrightarrow> reactions_stoch reactions = Inl IndexError)
   \<and> (\<not> isdigit (hd (py_split ''X'' j)) \<and> parse_term j tns = Inr (Some (c, k), t)
      \<longrightarrow> c = 1)"
  using split_sides_no_arrow[of piece "py_split '','' reactions"] coefficient_defaults[of j tns c k t]
  by (auto simp: reactions_stoch_def)

theorem C8_missing_arrow_witness:
  "''X2+X3'' \<in> set (py_split '','' ''X1->X2,X2+X3'') \<and> \<not> has_arrow ''X2+X3''
   \<and> reactions_stoch ''X1->X2,X2+X3'' = Inl IndexError
   \<and> \<not> isdigit (hd (py_split ''X'' ''aX1'')) \<and> parse_term ''aX1'' 0 = Inr (Some (1, 1), 1)"
proof -
  have a: "''X2+X3'' \<in> set (py_split '','' ''X1->X2,X2+X3'')" by (simp add: py_split_def)
  have b: "\<not> has_arrow ''X2+X3''" by simp
  have c: "\<not> isdigit (hd (py_split ''X'' ''aX1''))" by code_simp
  have d: "parse_term ''aX1'' 0 = Inr (Some (1, 1), 1)" by code_simp
  from C8_missing_arrow_raises[of "''X2+X3''" "''X1->X2,X2+X3''" "''aX1''" 0 1 1 1] a b c d
  show ?thesis by blast
qed

end
